theory Spec2Isabelle
  imports Complex_Main
begin

section \<open>The boids simulation of \<^verbatim>\<open>boids-py/main.py\<close>\<close>

text \<open>
  The program keeps a list of \<^verbatim>\<open>Boid\<close> objects, each holding three
  \<^verbatim>\<open>pygame.Vector2\<close> values, and advances all of them once per frame.
  Coordinates are Python floats; they are modelled here as real numbers, so every
  statement below is about exact arithmetic. Exceptions raised by the vector library are
  values of type \<open>error\<close>; a function that can raise returns \<open>error + 'a\<close>.
\<close>

subsection \<open>Module constants\<close>

definition WIDTH :: real where "WIDTH = 1070"
definition HEIGHT :: real where "HEIGHT = 800"
definition MAX_SPEED :: real where "MAX_SPEED = 240"
definition MAX_FORCE :: real where "MAX_FORCE = 200"
definition PERCEPTION :: real where "PERCEPTION = 50"
definition SEPARATION :: real where "SEPARATION = 50"
definition MOUSE_PERCEPTION :: real where "MOUSE_PERCEPTION = 100"
definition MOUSE_FORCE :: real where "MOUSE_FORCE = 30"

subsection \<open>The vector library, as far as the program uses it\<close>

datatype error = ValueError | ZeroDivisionError | IndexError

datatype Vector2 = Vector2 (vx: real) (vy: real)

text \<open>\<^verbatim>\<open>a + b\<close>, \<^verbatim>\<open>a - b\<close>, \<^verbatim>\<open>a * s\<close>, \<^verbatim>\<open>-a\<close> on vectors.\<close>

definition vadd :: "Vector2 \<Rightarrow> Vector2 \<Rightarrow> Vector2" where
  "vadd a b = Vector2 (vx a + vx b) (vy a + vy b)"

definition vsub :: "Vector2 \<Rightarrow> Vector2 \<Rightarrow> Vector2" where
  "vsub a b = Vector2 (vx a - vx b) (vy a - vy b)"

definition vmul :: "Vector2 \<Rightarrow> real \<Rightarrow> Vector2" where
  "vmul a s = Vector2 (vx a * s) (vy a * s)"

definition vneg :: "Vector2 \<Rightarrow> Vector2" where
  "vneg a = Vector2 (- vx a) (- vy a)"

text \<open>\<^verbatim>\<open>a / s\<close> raises \<^verbatim>\<open>ZeroDivisionError\<close> when the scalar is zero.\<close>

definition vdiv :: "Vector2 \<Rightarrow> real \<Rightarrow> error + Vector2" where
  "vdiv a s = (if s = 0 then Inl ZeroDivisionError else Inr (Vector2 (vx a / s) (vy a / s)))"

definition length_vec :: "Vector2 \<Rightarrow> real" where
  "length_vec a = sqrt (vx a * vx a + vy a * vy a)"

definition distance_to :: "Vector2 \<Rightarrow> Vector2 \<Rightarrow> real" where
  "distance_to a b = length_vec (vsub b a)"

text \<open>\<^verbatim>\<open>a.normalize()\<close> raises \<^verbatim>\<open>ValueError\<close> on a vector of length zero.\<close>

definition normalize_vec :: "Vector2 \<Rightarrow> error + Vector2" where
  "normalize_vec a =
     (let l = length_vec a in
      if l = 0 then Inl ValueError else Inr (Vector2 (vx a / l) (vy a / l)))"

subsection \<open>Boids\<close>

record Boid =
  position :: Vector2
  velocity :: Vector2
  acceleration :: Vector2
  life_history :: "int list"

text \<open>
  \<^verbatim>\<open>Boid.__init__\<close> draws five random numbers; the model takes them as an argument.
  \<^verbatim>\<open>random.randint\<close> gives integers, \<^verbatim>\<open>random.uniform\<close> floats.
\<close>

record draws =
  pos_x :: int
  pos_y :: int
  dir_x :: real
  dir_y :: real
  speed :: real

definition Boid_init :: "draws \<Rightarrow> error + Boid" where
  "Boid_init r =
     (let p = Vector2 (real_of_int (pos_x r)) (real_of_int (pos_y r));
          v = Vector2 (dir_x r) (dir_y r)
      in case normalize_vec v of
           Inl e \<Rightarrow> Inl e
         | Inr n \<Rightarrow>
             Inr \<lparr>position = p, velocity = vmul n (speed r),
                  acceleration = Vector2 0 0, life_history = replicate 512 0\<rparr>)"

text \<open>
  \<^verbatim>\<open>Boid.update(dt)\<close>: the method changes only its own object, so the model maps the old
  object to the new one.
\<close>

definition update :: "Boid \<Rightarrow> real \<Rightarrow> error + Boid" where
  "update self dt =
     (let v = vadd (velocity self) (vmul (acceleration self) dt) in
      case (if length_vec v > MAX_SPEED
            then (case normalize_vec v of
                    Inl e \<Rightarrow> Inl e
                  | Inr n \<Rightarrow> Inr (vmul n MAX_SPEED))
            else Inr v) of
        Inl e \<Rightarrow> Inl e
      | Inr v \<Rightarrow>
          Inr (self\<lparr>position := vadd (position self) (vmul v dt),
                    velocity := v,
                    acceleration := vmul (acceleration self) 0\<rparr>))"

text \<open>
  The behaviours read the whole population. An object reference is modelled as an index
  into the population list: \<open>i\<close> is the index of \<^verbatim>\<open>self\<close>, and the identity test
  \<^verbatim>\<open>boid != self\<close> (the class defines no \<^verbatim>\<open>__eq__\<close>) compares indices. The loops
  carry the index \<open>j\<close> of the boid they are looking at.
\<close>

fun align_loop :: "Boid \<Rightarrow> nat \<Rightarrow> nat \<Rightarrow> Boid list \<Rightarrow> Vector2 \<times> int \<Rightarrow> Vector2 \<times> int" where
  "align_loop self i j [] (steering, total_n) = (steering, total_n)"
| "align_loop self i j (boid # rest) (steering, total_n) =
     (let distance = distance_to (position self) (position boid) in
      if j \<noteq> i \<and> distance < PERCEPTION \<and> distance > 0
      then align_loop self i (Suc j) rest (vadd steering (velocity boid), total_n + 1)
      else align_loop self i (Suc j) rest (steering, total_n))"

definition align :: "Boid list \<Rightarrow> nat \<Rightarrow> error + Vector2" where
  "align boids i =
     (let self = boids ! i;
          (steering, total_n) = align_loop self i 0 boids (Vector2 0 0, 0)
      in if total_n > 0 then
           (case vdiv steering (real_of_int total_n) of
              Inl e \<Rightarrow> Inl e
            | Inr steering \<Rightarrow>
                (case normalize_vec steering of
                   Inl e \<Rightarrow> Inl e
                 | Inr n \<Rightarrow>
                     (let steering = vsub (vmul n MAX_SPEED) (velocity self) in
                      if length_vec steering > MAX_FORCE
                      then (case normalize_vec steering of
                              Inl e \<Rightarrow> Inl e
                            | Inr n \<Rightarrow> Inr (vmul n MAX_FORCE))
                      else Inr steering)))
         else Inr steering)"

fun cohesion_loop :: "Boid \<Rightarrow> nat \<Rightarrow> nat \<Rightarrow> Boid list \<Rightarrow> Vector2 \<times> int \<Rightarrow> Vector2 \<times> int" where
  "cohesion_loop self i j [] (steering, total_n) = (steering, total_n)"
| "cohesion_loop self i j (boid # rest) (steering, total_n) =
     (let distance = distance_to (position self) (position boid) in
      if j \<noteq> i \<and> distance < PERCEPTION \<and> distance > 0
      then cohesion_loop self i (Suc j) rest (vadd steering (position boid), total_n + 1)
      else cohesion_loop self i (Suc j) rest (steering, total_n))"

definition cohesion :: "Boid list \<Rightarrow> nat \<Rightarrow> error + Vector2" where
  "cohesion boids i =
     (let self = boids ! i;
          (steering, total_n) = cohesion_loop self i 0 boids (Vector2 0 0, 0)
      in if total_n > 0 then
           (case vdiv steering (real_of_int total_n) of
              Inl e \<Rightarrow> Inl e
            | Inr steering \<Rightarrow>
                (case normalize_vec (vsub steering (position self)) of
                   Inl e \<Rightarrow> Inl e
                 | Inr n \<Rightarrow>
                     (let steering = vsub (vmul n MAX_SPEED) (velocity self) in
                      if length_vec steering > MAX_FORCE
                      then (case normalize_vec steering of
                              Inl e \<Rightarrow> Inl e
                            | Inr n \<Rightarrow> Inr (vmul n MAX_FORCE))
                      else Inr steering)))
         else Inr steering)"

fun separation_loop ::
  "Boid \<Rightarrow> nat \<Rightarrow> nat \<Rightarrow> Boid list \<Rightarrow> Vector2 \<times> int \<Rightarrow> error + Vector2 \<times> int" where
  "separation_loop self i j [] (steering, total_n) = Inr (steering, total_n)"
| "separation_loop self i j (boid # rest) (steering, total_n) =
     (let distance = distance_to (position self) (position boid) in
      if j \<noteq> i \<and> distance < SEPARATION \<and> distance > 0
      then (case normalize_vec (vsub (position self) (position boid)) of
              Inl e \<Rightarrow> Inl e
            | Inr n \<Rightarrow>
                (case vdiv n distance of
                   Inl e \<Rightarrow> Inl e
                 | Inr diff \<Rightarrow>
                     separation_loop self i (Suc j) rest (vadd steering diff, total_n + 1)))
      else separation_loop self i (Suc j) rest (steering, total_n))"

definition separation :: "Boid list \<Rightarrow> nat \<Rightarrow> error + Vector2" where
  "separation boids i =
     (let self = boids ! i in
      case separation_loop self i 0 boids (Vector2 0 0, 0) of
        Inl e \<Rightarrow> Inl e
      | Inr (steering, total_n) \<Rightarrow>
          if total_n > 0 then
            (case vdiv steering (real_of_int total_n) of
               Inl e \<Rightarrow> Inl e
             | Inr steering \<Rightarrow>
                 (case normalize_vec steering of
                    Inl e \<Rightarrow> Inl e
                  | Inr n \<Rightarrow>
                      (let steering = vsub (vmul n MAX_SPEED) (velocity self) in
                       if length_vec steering > MAX_FORCE
                       then (case normalize_vec steering of
                               Inl e \<Rightarrow> Inl e
                             | Inr n \<Rightarrow> Inr (vmul n MAX_FORCE))
                       else Inr steering)))
          else Inr steering)"

definition react_to_mouse :: "Boid \<Rightarrow> Vector2 \<Rightarrow> bool \<Rightarrow> error + Vector2" where
  "react_to_mouse self mouse_pos is_attracted =
     (let steering = Vector2 0 0;
          distance = distance_to (position self) mouse_pos
      in if distance < MOUSE_PERCEPTION \<and> distance > 0 then
           (case normalize_vec (vsub mouse_pos (position self)) of
              Inl e \<Rightarrow> Inl e
            | Inr diff \<Rightarrow>
                (let steering = (if is_attracted then vmul diff MOUSE_FORCE
                                 else vmul (vneg diff) MOUSE_FORCE)
                 in if length_vec steering > MAX_FORCE
                    then (case normalize_vec steering of
                            Inl e \<Rightarrow> Inl e
                          | Inr n \<Rightarrow> Inr (vmul n MAX_FORCE))
                    else Inr steering))
         else Inr steering)"

text \<open>
  \<^verbatim>\<open>apply_behavior\<close> reads the population and adds the four forces to the acceleration
  of \<^verbatim>\<open>self\<close>; the model returns the population with that one object replaced.
\<close>

definition apply_behavior :: "Boid list \<Rightarrow> nat \<Rightarrow> Vector2 \<Rightarrow> bool \<Rightarrow> error + Boid list" where
  "apply_behavior boids i mouse_pos is_attracted =
     (case align boids i of
        Inl e \<Rightarrow> Inl e
      | Inr alignment \<Rightarrow>
     (case cohesion boids i of
        Inl e \<Rightarrow> Inl e
      | Inr cohesion_f \<Rightarrow>
     (case separation boids i of
        Inl e \<Rightarrow> Inl e
      | Inr separation_f \<Rightarrow>
     (case react_to_mouse (boids ! i) mouse_pos is_attracted of
        Inl e \<Rightarrow> Inl e
      | Inr mouse_reaction \<Rightarrow>
          Inr (boids[i := (boids ! i)\<lparr>acceleration :=
                 vadd (vadd (vadd (vadd (acceleration (boids ! i)) alignment) cohesion_f)
                        separation_f) mouse_reaction\<rparr>])))))"

definition edges :: "Boid \<Rightarrow> Boid" where
  "edges self =
     (let px = (if vx (position self) > WIDTH then 0
                else if vx (position self) < 0 then WIDTH
                else vx (position self));
          py = (if vy (position self) > HEIGHT then 0
                else if vy (position self) < 0 then HEIGHT
                else vy (position self))
      in self\<lparr>position := Vector2 px py\<rparr>)"

text \<open>
  \<^verbatim>\<open>update_all_boids\<close>: one pass over the list; each boid is steered, integrated and
  wrapped before the next one is looked at. An exception ends the pass.
\<close>

fun update_all_boids_loop ::
  "nat list \<Rightarrow> Boid list \<Rightarrow> real \<Rightarrow> Vector2 \<Rightarrow> bool \<Rightarrow> error + Boid list" where
  "update_all_boids_loop [] boids dt mouse_pos is_attracted = Inr boids"
| "update_all_boids_loop (i # rest) boids dt mouse_pos is_attracted =
     (case apply_behavior boids i mouse_pos is_attracted of
        Inl e \<Rightarrow> Inl e
      | Inr boids1 \<Rightarrow>
          (case update (boids1 ! i) dt of
             Inl e \<Rightarrow> Inl e
           | Inr boid \<Rightarrow>
               update_all_boids_loop rest (boids1[i := edges boid]) dt mouse_pos is_attracted))"

definition update_all_boids ::
  "Boid list \<Rightarrow> real \<Rightarrow> Vector2 \<Rightarrow> bool \<Rightarrow> error + Boid list" where
  "update_all_boids boids dt mouse_pos is_attracted =
     update_all_boids_loop [0..<length boids] boids dt mouse_pos is_attracted"

subsection \<open>The neighbour test and some populations\<close>

text \<open>The test that the three neighbour loops apply to boid \<open>j\<close> on behalf of boid \<open>i\<close>.\<close>

definition qualifies :: "real \<Rightarrow> Boid list \<Rightarrow> nat \<Rightarrow> nat \<Rightarrow> bool" where
  "qualifies radius boids i j \<longleftrightarrow>
     j \<noteq> i \<and>
     distance_to (position (boids ! i)) (position (boids ! j)) < radius \<and>
     distance_to (position (boids ! i)) (position (boids ! j)) > 0"

definition two_close :: "Boid list" where
  "two_close =
     [\<lparr>position = Vector2 0 100, velocity = Vector2 10 0,
       acceleration = Vector2 0 0, life_history = replicate 512 0\<rparr>,
      \<lparr>position = Vector2 30 100, velocity = Vector2 20 0,
       acceleration = Vector2 0 0, life_history = replicate 512 0\<rparr>]"

definition lone_boid :: Boid where
  "lone_boid = \<lparr>position = Vector2 (-1) 805, velocity = Vector2 300 0,
                 acceleration = Vector2 100 0, life_history = replicate 512 0\<rparr>"

definition two_far :: "Boid list" where
  "two_far =
     [\<lparr>position = Vector2 0 100, velocity = Vector2 60 0,
       acceleration = Vector2 0 0, life_history = replicate 512 0\<rparr>,
      \<lparr>position = Vector2 100 100, velocity = Vector2 10 0,
       acceleration = Vector2 0 0, life_history = replicate 512 0\<rparr>]"

subsection \<open>Changing the population\<close>

text \<open>
  The key handlers of the main loop. \<^verbatim>\<open>K_UP\<close> extends the list by
  \<^verbatim>\<open>[Boid() for _ in range(10)]\<close>, \<^verbatim>\<open>K_DOWN\<close> runs \<^verbatim>\<open>boids.pop()\<close>
  \<^verbatim>\<open>min(10, len(boids))\<close> times. \<open>grow\<close> and \<open>shrink\<close> are these two handlers with
  the literal 10 as a parameter; \<open>rnd k\<close> are the random numbers of the \<open>k\<close>-th
  construction.
\<close>

fun new_boids :: "nat \<Rightarrow> (nat \<Rightarrow> draws) \<Rightarrow> error + Boid list" where
  "new_boids 0 rnd = Inr []"
| "new_boids (Suc n) rnd =
     (case Boid_init (rnd 0) of
        Inl e \<Rightarrow> Inl e
      | Inr boid \<Rightarrow>
          (case new_boids n (\<lambda>k. rnd (Suc k)) of
             Inl e \<Rightarrow> Inl e
           | Inr rest \<Rightarrow> Inr (boid # rest)))"

definition grow :: "nat \<Rightarrow> (nat \<Rightarrow> draws) \<Rightarrow> Boid list \<Rightarrow> error + Boid list" where
  "grow n rnd boids =
     (case new_boids n rnd of
        Inl e \<Rightarrow> Inl e
      | Inr fresh \<Rightarrow> Inr (boids @ fresh))"

text \<open>\<^verbatim>\<open>list.pop()\<close> raises \<^verbatim>\<open>IndexError\<close> on an empty list; the handler drops the popped boid.\<close>

definition pop :: "'a list \<Rightarrow> error + 'a list" where
  "pop xs = (if xs = [] then Inl IndexError else Inr (butlast xs))"

fun pop_loop :: "nat \<Rightarrow> Boid list \<Rightarrow> error + Boid list" where
  "pop_loop 0 boids = Inr boids"
| "pop_loop (Suc k) boids =
     (case pop boids of
        Inl e \<Rightarrow> Inl e
      | Inr boids' \<Rightarrow> pop_loop k boids')"

definition shrink :: "nat \<Rightarrow> Boid list \<Rightarrow> error + Boid list" where
  "shrink n boids = pop_loop (min n (length boids)) boids"

definition key_up :: "(nat \<Rightarrow> draws) \<Rightarrow> Boid list \<Rightarrow> error + Boid list" where
  "key_up rnd boids = grow 10 rnd boids"

definition key_down :: "Boid list \<Rightarrow> error + Boid list" where
  "key_down boids = shrink 10 boids"

definition east_draws :: "nat \<Rightarrow> draws" where
  "east_draws k = \<lparr>pos_x = int k, pos_y = 4, dir_x = 1, dir_y = 0, speed = 5\<rparr>"

text \<open>
  Three boids on a line, the first one midway between the other two, and the state of
  \<open>two_far\<close> after one pass of the program (\<open>two_far_sequential\<close>), after its first
  boid alone has moved (\<open>two_far_mid\<close>), and after one two-phase step
  (\<open>two_far_two_phase\<close>).
\<close>

definition three_in_line :: "Boid list" where
  "three_in_line =
     [\<lparr>position = Vector2 10 10, velocity = Vector2 5 0,
       acceleration = Vector2 0 0, life_history = replicate 512 0\<rparr>,
      \<lparr>position = Vector2 0 10, velocity = Vector2 10 0,
       acceleration = Vector2 0 0, life_history = replicate 512 0\<rparr>,
      \<lparr>position = Vector2 20 10, velocity = Vector2 20 0,
       acceleration = Vector2 0 0, life_history = replicate 512 0\<rparr>]"

subsection \<open>The two-phase step of the specification\<close>

text \<open>
  For comparison with \<open>update_all_boids\<close>, the step as section 4.4 of the specification
  words it: first every agent's acceleration is set to the sum of its four forces, all
  of them evaluated on the population as it was before the step; then every agent is
  integrated and wrapped. \<open>force_sum\<close> is the sum of the four forces of boid \<open>i\<close> on a
  given population.
\<close>

definition force_sum :: "Boid list \<Rightarrow> nat \<Rightarrow> Vector2 \<Rightarrow> bool \<Rightarrow> error + Vector2" where
  "force_sum boids i mouse_pos is_attracted =
     (case align boids i of
        Inl e \<Rightarrow> Inl e
      | Inr alignment \<Rightarrow>
     (case cohesion boids i of
        Inl e \<Rightarrow> Inl e
      | Inr cohesion_f \<Rightarrow>
     (case separation boids i of
        Inl e \<Rightarrow> Inl e
      | Inr separation_f \<Rightarrow>
     (case react_to_mouse (boids ! i) mouse_pos is_attracted of
        Inl e \<Rightarrow> Inl e
      | Inr mouse_reaction \<Rightarrow>
          Inr (vadd (vadd (vadd alignment cohesion_f) separation_f) mouse_reaction)))))"

fun phase1_spec :: "Boid list \<Rightarrow> nat list \<Rightarrow> Vector2 \<Rightarrow> bool \<Rightarrow> error + Boid list" where
  "phase1_spec snapshot [] mouse_pos is_attracted = Inr []"
| "phase1_spec snapshot (i # rest) mouse_pos is_attracted =
     (case force_sum snapshot i mouse_pos is_attracted of
        Inl e \<Rightarrow> Inl e
      | Inr f \<Rightarrow>
          (case phase1_spec snapshot rest mouse_pos is_attracted of
             Inl e \<Rightarrow> Inl e
           | Inr boids \<Rightarrow> Inr ((snapshot ! i)\<lparr>acceleration := f\<rparr> # boids)))"

fun phase2_spec :: "Boid list \<Rightarrow> real \<Rightarrow> error + Boid list" where
  "phase2_spec [] dt = Inr []"
| "phase2_spec (boid # rest) dt =
     (case update boid dt of
        Inl e \<Rightarrow> Inl e
      | Inr boid' \<Rightarrow>
          (case phase2_spec rest dt of
             Inl e \<Rightarrow> Inl e
           | Inr boids \<Rightarrow> Inr (edges boid' # boids)))"

definition step_spec :: "Boid list \<Rightarrow> real \<Rightarrow> Vector2 \<Rightarrow> bool \<Rightarrow> error + Boid list" where
  "step_spec boids dt mouse_pos is_attracted =
     (case phase1_spec boids [0..<length boids] mouse_pos is_attracted of
        Inl e \<Rightarrow> Inl e
      | Inr boids' \<Rightarrow> phase2_spec boids' dt)"

definition two_far_sequential :: "Boid list" where
  "two_far_sequential =
     [\<lparr>position = Vector2 60 100, velocity = Vector2 60 0,
       acceleration = Vector2 0 0, life_history = replicate 512 0\<rparr>,
      \<lparr>position = Vector2 310 100, velocity = Vector2 210 0,
       acceleration = Vector2 0 0, life_history = replicate 512 0\<rparr>]"

definition two_far_two_phase :: "Boid list" where
  "two_far_two_phase =
     [\<lparr>position = Vector2 60 100, velocity = Vector2 60 0,
       acceleration = Vector2 0 0, life_history = replicate 512 0\<rparr>,
      \<lparr>position = Vector2 110 100, velocity = Vector2 10 0,
       acceleration = Vector2 0 0, life_history = replicate 512 0\<rparr>]"

definition two_far_mid :: "Boid list" where
  "two_far_mid = two_far[0 := two_far_sequential ! 0]"

subsection \<open>Snapshots\<close>

text \<open>
  The snapshot of a boid is what the step is said to depend on: position, velocity and
  acceleration. \<open>forget_history\<close> blanks the one remaining field.
\<close>

definition snapshot :: "Boid \<Rightarrow> Vector2 \<times> Vector2 \<times> Vector2" where
  "snapshot b = (position b, velocity b, acceleration b)"

definition forget_history :: "Boid \<Rightarrow> Boid" where
  "forget_history b = b\<lparr>life_history := []\<rparr>"

section \<open>Vector arithmetic\<close>

lemmas consts_defs =
  WIDTH_def HEIGHT_def MAX_SPEED_def MAX_FORCE_def PERCEPTION_def SEPARATION_def
  MOUSE_PERCEPTION_def MOUSE_FORCE_def

lemma length_vec_nonneg: "0 \<le> length_vec a"
  by (simp add: length_vec_def)

lemma length_vec_zero_iff: "length_vec a = 0 \<longleftrightarrow> a = Vector2 0 0"
  by (cases a) (simp add: length_vec_def flip: power2_eq_square)

lemma length_vec_zero: "length_vec (Vector2 0 0) = 0"
  by (simp add: length_vec_def)

lemma length_vmul: "length_vec (vmul a s) = \<bar>s\<bar> * length_vec a"
proof -
  have "vx a * s * (vx a * s) + vy a * s * (vy a * s) = s\<^sup>2 * (vx a * vx a + vy a * vy a)"
    by (simp add: power2_eq_square algebra_simps)
  then show ?thesis
    by (simp add: length_vec_def vmul_def real_sqrt_mult)
qed

lemma length_vneg: "length_vec (vneg a) = length_vec a"
  by (simp add: length_vec_def vneg_def)

lemma normalize_vec_unit:
  assumes "normalize_vec a = Inr n"
  shows "length_vec n = 1"
proof -
  let ?l = "length_vec a"
  from assms have l: "?l \<noteq> 0" and n: "n = Vector2 (vx a / ?l) (vy a / ?l)"
    by (auto simp: normalize_vec_def Let_def split: if_splits)
  have sq: "?l * ?l = vx a * vx a + vy a * vy a"
    by (simp add: length_vec_def)
  have "vx a / ?l * (vx a / ?l) + vy a / ?l * (vy a / ?l) = (vx a * vx a + vy a * vy a) / (?l * ?l)"
    by (simp add: add_divide_distrib)
  also have "\<dots> = 1" using l by (simp flip: sq)
  finally show ?thesis by (simp add: n length_vec_def)
qed

lemma normalize_vec_defined:
  "length_vec a \<noteq> 0 \<Longrightarrow> \<exists>n. normalize_vec a = Inr n"
  by (simp add: normalize_vec_def Let_def)

lemma clamp_bound:
  assumes "(if length_vec s > m
            then (case normalize_vec s of Inl e \<Rightarrow> Inl e | Inr n \<Rightarrow> Inr (vmul n m))
            else Inr s) = Inr f" and "0 \<le> m"
  shows "length_vec f \<le> m"
  using assms
  by (auto simp: length_vmul normalize_vec_unit split: if_splits sum.splits)

lemma align_loop_total:
  "align_loop self i j bs (s, t) = (s', t') \<Longrightarrow> t \<le> t' \<and> (t' = t \<longrightarrow> s' = s)"
proof (induction bs arbitrary: j s t)
  case Nil
  then show ?case by simp
next
  case (Cons b bs)
  then show ?case
    by (fastforce simp: Let_def split: if_splits)
qed

lemma cohesion_loop_total:
  "cohesion_loop self i j bs (s, t) = (s', t') \<Longrightarrow> t \<le> t' \<and> (t' = t \<longrightarrow> s' = s)"
proof (induction bs arbitrary: j s t)
  case Nil
  then show ?case by simp
next
  case (Cons b bs)
  then show ?case
    by (fastforce simp: Let_def split: if_splits)
qed

lemma separation_loop_total:
  "separation_loop self i j bs (s, t) = Inr (s', t') \<Longrightarrow> t \<le> t' \<and> (t' = t \<longrightarrow> s' = s)"
proof (induction bs arbitrary: j s t)
  case Nil
  then show ?case by simp
next
  case (Cons b bs)
  then show ?case
    by (fastforce simp: Let_def split: if_splits sum.splits)
qed

lemma MAX_FORCE_nonneg: "0 \<le> MAX_FORCE"
  by (simp add: MAX_FORCE_def)

lemma align_bound:
  assumes "align boids i = Inr f"
  shows "length_vec f \<le> MAX_FORCE"
proof -
  obtain s t where loop: "align_loop (boids ! i) i 0 boids (Vector2 0 0, 0) = (s, t)"
    by (cases "align_loop (boids ! i) i 0 boids (Vector2 0 0, 0)")
  show ?thesis
  proof (cases "t > 0")
    case True
    with assms loop show ?thesis
      by (auto simp: align_def Let_def length_vmul normalize_vec_unit MAX_FORCE_def
            split: sum.splits if_splits)
  next
    case False
    with align_loop_total [OF loop] have "s = Vector2 0 0" by simp
    with assms loop False show ?thesis
      by (auto simp: align_def length_vec_zero MAX_FORCE_nonneg)
  qed
qed

lemma cohesion_bound:
  assumes "cohesion boids i = Inr f"
  shows "length_vec f \<le> MAX_FORCE"
proof -
  obtain s t where loop: "cohesion_loop (boids ! i) i 0 boids (Vector2 0 0, 0) = (s, t)"
    by (cases "cohesion_loop (boids ! i) i 0 boids (Vector2 0 0, 0)")
  show ?thesis
  proof (cases "t > 0")
    case True
    with assms loop show ?thesis
      by (auto simp: cohesion_def Let_def length_vmul normalize_vec_unit MAX_FORCE_def
            split: sum.splits if_splits)
  next
    case False
    with cohesion_loop_total [OF loop] have "s = Vector2 0 0" by simp
    with assms loop False show ?thesis
      by (auto simp: cohesion_def length_vec_zero MAX_FORCE_nonneg)
  qed
qed

lemma separation_bound:
  assumes "separation boids i = Inr f"
  shows "length_vec f \<le> MAX_FORCE"
proof -
  from assms obtain s t
    where loop: "separation_loop (boids ! i) i 0 boids (Vector2 0 0, 0) = Inr (s, t)"
    by (cases "separation_loop (boids ! i) i 0 boids (Vector2 0 0, 0)")
       (auto simp: separation_def)
  show ?thesis
  proof (cases "t > 0")
    case True
    with assms loop show ?thesis
      by (auto simp: separation_def Let_def length_vmul normalize_vec_unit MAX_FORCE_def
            split: sum.splits if_splits)
  next
    case False
    with separation_loop_total [OF loop] have "s = Vector2 0 0" by simp
    with assms loop False show ?thesis
      by (auto simp: separation_def length_vec_zero MAX_FORCE_nonneg)
  qed
qed

lemma react_to_mouse_total:
  "\<exists>f. react_to_mouse self mouse_pos is_attracted = Inr f \<and> length_vec f \<le> MOUSE_FORCE"
proof (cases "distance_to (position self) mouse_pos < MOUSE_PERCEPTION \<and>
              distance_to (position self) mouse_pos > 0")
  case False
  then show ?thesis
    by (auto simp: react_to_mouse_def Let_def length_vec_zero MOUSE_FORCE_def)
next
  case True
  then have "length_vec (vsub mouse_pos (position self)) \<noteq> 0"
    by (simp add: distance_to_def)
  then obtain n where n: "normalize_vec (vsub mouse_pos (position self)) = Inr n"
    using normalize_vec_defined by blast
  have len: "length_vec (vmul n MOUSE_FORCE) = MOUSE_FORCE"
    "length_vec (vmul (vneg n) MOUSE_FORCE) = MOUSE_FORCE"
    using normalize_vec_unit [OF n] by (simp_all add: length_vmul length_vneg MOUSE_FORCE_def)
  have "MOUSE_FORCE \<le> MAX_FORCE" by (simp add: consts_defs)
  with True n len show ?thesis
    by (simp add: react_to_mouse_def Let_def)
qed

lemma length_vec_axis_x: "length_vec (Vector2 a 0) = \<bar>a\<bar>"
  by (simp add: length_vec_def)

lemma length_vec_axis_y: "length_vec (Vector2 0 a) = \<bar>a\<bar>"
  by (simp add: length_vec_def)

lemmas vec_eval = vadd_def vsub_def vmul_def vneg_def vdiv_def normalize_vec_def distance_to_def
  length_vec_axis_x length_vec_axis_y Let_def

lemma align_two_close: "align two_close 0 = Inr (Vector2 200 0)"
  by (simp add: align_def two_close_def vec_eval consts_defs)

lemma cohesion_two_close: "cohesion two_close 0 = Inr (Vector2 200 0)"
  by (simp add: cohesion_def two_close_def vec_eval consts_defs)

lemma separation_two_close: "separation two_close 0 = Inr (Vector2 (-200) 0)"
  by (simp add: separation_def two_close_def vec_eval consts_defs)

text \<open>
  Claim C4. Whatever the population, the acting boid, the pointer position and the mode
  flag are, a force that one of the four behaviours returns has length at most
  \<open>MAX_FORCE\<close>. The three neighbour behaviours may raise instead of returning (see
  C2); the pointer reaction always returns.
\<close>
theorem behaviour_forces_bounded:
  "(\<forall>f. align boids i = Inr f \<longrightarrow> length_vec f \<le> MAX_FORCE) \<and>
   (\<forall>f. cohesion boids i = Inr f \<longrightarrow> length_vec f \<le> MAX_FORCE) \<and>
   (\<forall>f. separation boids i = Inr f \<longrightarrow> length_vec f \<le> MAX_FORCE) \<and>
   (\<exists>f. react_to_mouse self mouse_pos is_attracted = Inr f \<and> length_vec f \<le> MAX_FORCE)"
proof -
  obtain f where "react_to_mouse self mouse_pos is_attracted = Inr f"
    and "length_vec f \<le> MOUSE_FORCE"
    using react_to_mouse_total by blast
  moreover have "MOUSE_FORCE \<le> MAX_FORCE" by (simp add: consts_defs)
  ultimately have "\<exists>f. react_to_mouse self mouse_pos is_attracted = Inr f \<and>
      length_vec f \<le> MAX_FORCE"
    by fastforce
  then show ?thesis
    using align_bound cohesion_bound separation_bound by blast
qed

theorem behaviour_forces_bounded_witness:
  "align two_close 0 = Inr (Vector2 200 0) \<and>
   cohesion two_close 0 = Inr (Vector2 200 0) \<and>
   separation two_close 0 = Inr (Vector2 (-200) 0) \<and>
   length_vec (Vector2 200 0) \<le> MAX_FORCE \<and> length_vec (Vector2 (-200) 0) \<le> MAX_FORCE"
  using behaviour_forces_bounded [of two_close 0]
  by (simp add: align_two_close cohesion_two_close separation_two_close)

text \<open>
  Claim C3. \<^verbatim>\<open>update(dt)\<close> always returns; afterwards the speed is at most
  \<open>MAX_SPEED\<close>. If velocity plus acceleration times \<open>dt\<close> is longer than
  \<open>MAX_SPEED\<close>, the new velocity is that vector times a positive factor and has length
  exactly \<open>MAX_SPEED\<close>, otherwise it is that vector. The position moves by the new
  velocity times \<open>dt\<close>, and the acceleration is the zero vector.
\<close>
theorem update_clamps_speed:
  "\<exists>b'. update b dt = Inr b' \<and>
     length_vec (velocity b') \<le> MAX_SPEED \<and>
     (let w = vadd (velocity b) (vmul (acceleration b) dt) in
        if length_vec w > MAX_SPEED
        then length_vec (velocity b') = MAX_SPEED \<and>
             velocity b' = vmul w (MAX_SPEED / length_vec w) \<and> 0 < MAX_SPEED / length_vec w
        else velocity b' = w) \<and>
     position b' = vadd (position b) (vmul (velocity b') dt) \<and>
     acceleration b' = Vector2 0 0"
proof (cases "length_vec (vadd (velocity b) (vmul (acceleration b) dt)) > MAX_SPEED")
  case False
  then show ?thesis
    by (simp add: update_def Let_def vmul_def)
next
  case True
  let ?w = "vadd (velocity b) (vmul (acceleration b) dt)"
  from True have pos: "0 < length_vec ?w" by (simp add: MAX_SPEED_def)
  then obtain n where n: "normalize_vec ?w = Inr n"
    using normalize_vec_defined [of ?w] by auto
  then have n_eq: "vmul n MAX_SPEED = vmul ?w (MAX_SPEED / length_vec ?w)"
    using pos by (auto simp: normalize_vec_def Let_def vmul_def)
  have "length_vec (vmul n MAX_SPEED) = MAX_SPEED"
    using normalize_vec_unit [OF n] by (simp add: length_vmul MAX_SPEED_def)
  moreover have "0 < MAX_SPEED / length_vec ?w"
    using pos by (simp add: MAX_SPEED_def)
  ultimately show ?thesis
    using True n n_eq by (simp add: update_def Let_def vmul_def)
qed

text \<open>
  Claim C5, as amended. After \<^verbatim>\<open>edges\<close> the position lies in the closed rectangle
  from \<open>(0, 0)\<close> to \<open>(WIDTH, HEIGHT)\<close>, whatever it was before. The right and the
  bottom edge are included: a coordinate below zero is set to \<open>WIDTH\<close> (or
  \<open>HEIGHT\<close>) itself.
\<close>
theorem edges_position_closed:
  "0 \<le> vx (position (edges b)) \<and> vx (position (edges b)) \<le> WIDTH \<and>
   0 \<le> vy (position (edges b)) \<and> vy (position (edges b)) \<le> HEIGHT"
  by (simp add: edges_def Let_def consts_defs)

text \<open>
  Claim C5 as stated asks for the half-open rectangle. A boid that left through the left
  edge is put at \<open>x = WIDTH\<close>.
\<close>
theorem edges_half_open_counterexample:
  "\<not> vx (position (edges lone_boid)) < WIDTH"
  by (simp add: edges_def lone_boid_def Let_def consts_defs)

text \<open>
  Claim C6. \<^verbatim>\<open>edges\<close> wraps and neither reflects nor clamps: a coordinate beyond
  \<open>WIDTH\<close> (\<open>HEIGHT\<close>) becomes 0, one below 0 becomes \<open>WIDTH\<close>
  (\<open>HEIGHT\<close>), one in between stays. In particular \<open>x = WIDTH + \<epsilon>\<close> becomes 0.
  Each coordinate is decided by itself alone, and velocity, acceleration and history are
  as before.
\<close>
theorem edges_wraps:
  "(vx (position b) > WIDTH \<longrightarrow> vx (position (edges b)) = 0) \<and>
   (vx (position b) < 0 \<longrightarrow> vx (position (edges b)) = WIDTH) \<and>
   (0 \<le> vx (position b) \<and> vx (position b) \<le> WIDTH \<longrightarrow>
      vx (position (edges b)) = vx (position b)) \<and>
   (vy (position b) > HEIGHT \<longrightarrow> vy (position (edges b)) = 0) \<and>
   (vy (position b) < 0 \<longrightarrow> vy (position (edges b)) = HEIGHT) \<and>
   (0 \<le> vy (position b) \<and> vy (position b) \<le> HEIGHT \<longrightarrow>
      vy (position (edges b)) = vy (position b)) \<and>
   (\<forall>\<epsilon>>0. vx (position b) = WIDTH + \<epsilon> \<longrightarrow> vx (position (edges b)) = 0) \<and>
   velocity (edges b) = velocity b \<and> acceleration (edges b) = acceleration b \<and>
   life_history (edges b) = life_history b"
  by (simp add: edges_def Let_def consts_defs)

lemma align_loop_none:
  assumes "\<forall>k<length bs. \<not> (j + k \<noteq> i \<and>
              distance_to (position self) (position (bs ! k)) < PERCEPTION \<and>
              distance_to (position self) (position (bs ! k)) > 0)"
  shows "align_loop self i j bs acc = acc"
  using assms
proof (induction bs arbitrary: j)
  case Nil
  then show ?case by (cases acc) simp
next
  case (Cons b bs)
  from Cons.prems have hd: "\<not> (j \<noteq> i \<and>
      distance_to (position self) (position b) < PERCEPTION \<and>
      distance_to (position self) (position b) > 0)"
    by (auto dest: spec [of _ 0])
  have "\<forall>k<length bs. \<not> (Suc j + k \<noteq> i \<and>
              distance_to (position self) (position (bs ! k)) < PERCEPTION \<and>
              distance_to (position self) (position (bs ! k)) > 0)"
  proof (intro allI impI)
    fix k assume "k < length bs"
    with Cons.prems show "\<not> (Suc j + k \<noteq> i \<and>
              distance_to (position self) (position (bs ! k)) < PERCEPTION \<and>
              distance_to (position self) (position (bs ! k)) > 0)"
      by (auto dest!: spec [of _ "Suc k"])
  qed
  then have "align_loop self i (Suc j) bs acc = acc" by (rule Cons.IH)
  with hd show ?case by (cases acc) (auto simp: Let_def)
qed

lemma cohesion_loop_none:
  assumes "\<forall>k<length bs. \<not> (j + k \<noteq> i \<and>
              distance_to (position self) (position (bs ! k)) < PERCEPTION \<and>
              distance_to (position self) (position (bs ! k)) > 0)"
  shows "cohesion_loop self i j bs acc = acc"
  using assms
proof (induction bs arbitrary: j)
  case Nil
  then show ?case by (cases acc) simp
next
  case (Cons b bs)
  from Cons.prems have hd: "\<not> (j \<noteq> i \<and>
      distance_to (position self) (position b) < PERCEPTION \<and>
      distance_to (position self) (position b) > 0)"
    by (auto dest: spec [of _ 0])
  have "\<forall>k<length bs. \<not> (Suc j + k \<noteq> i \<and>
              distance_to (position self) (position (bs ! k)) < PERCEPTION \<and>
              distance_to (position self) (position (bs ! k)) > 0)"
  proof (intro allI impI)
    fix k assume "k < length bs"
    with Cons.prems show "\<not> (Suc j + k \<noteq> i \<and>
              distance_to (position self) (position (bs ! k)) < PERCEPTION \<and>
              distance_to (position self) (position (bs ! k)) > 0)"
      by (auto dest!: spec [of _ "Suc k"])
  qed
  then have "cohesion_loop self i (Suc j) bs acc = acc" by (rule Cons.IH)
  with hd show ?case by (cases acc) (auto simp: Let_def)
qed

lemma separation_loop_none:
  assumes "\<forall>k<length bs. \<not> (j + k \<noteq> i \<and>
              distance_to (position self) (position (bs ! k)) < SEPARATION \<and>
              distance_to (position self) (position (bs ! k)) > 0)"
  shows "separation_loop self i j bs acc = Inr acc"
  using assms
proof (induction bs arbitrary: j)
  case Nil
  then show ?case by (cases acc) simp
next
  case (Cons b bs)
  from Cons.prems have hd: "\<not> (j \<noteq> i \<and>
      distance_to (position self) (position b) < SEPARATION \<and>
      distance_to (position self) (position b) > 0)"
    by (auto dest: spec [of _ 0])
  have "\<forall>k<length bs. \<not> (Suc j + k \<noteq> i \<and>
              distance_to (position self) (position (bs ! k)) < SEPARATION \<and>
              distance_to (position self) (position (bs ! k)) > 0)"
  proof (intro allI impI)
    fix k assume "k < length bs"
    with Cons.prems show "\<not> (Suc j + k \<noteq> i \<and>
              distance_to (position self) (position (bs ! k)) < SEPARATION \<and>
              distance_to (position self) (position (bs ! k)) > 0)"
      by (auto dest!: spec [of _ "Suc k"])
  qed
  then have "separation_loop self i (Suc j) bs acc = Inr acc" by (rule Cons.IH)
  with hd show ?case by (cases acc) (auto simp: Let_def)
qed

text \<open>
  Claim C7. If no boid of the population qualifies as a neighbour of boid \<open>i\<close> (another
  boid, closer than the radius, at positive distance), then alignment, cohesion and
  separation each return the zero vector itself, and none of them raises.
\<close>
theorem no_neighbour_zero_force:
  assumes "\<forall>j<length boids. \<not> qualifies PERCEPTION boids i j"
    and "\<forall>j<length boids. \<not> qualifies SEPARATION boids i j"
  shows "align boids i = Inr (Vector2 0 0) \<and> cohesion boids i = Inr (Vector2 0 0) \<and>
         separation boids i = Inr (Vector2 0 0)"
proof -
  have "align_loop (boids ! i) i 0 boids (Vector2 0 0, 0) = (Vector2 0 0, 0)"
    using assms(1) by (intro align_loop_none) (simp add: qualifies_def)
  moreover have "cohesion_loop (boids ! i) i 0 boids (Vector2 0 0, 0) = (Vector2 0 0, 0)"
    using assms(1) by (intro cohesion_loop_none) (simp add: qualifies_def)
  moreover have "separation_loop (boids ! i) i 0 boids (Vector2 0 0, 0) = Inr (Vector2 0 0, 0)"
    using assms(2) by (intro separation_loop_none) (simp add: qualifies_def)
  ultimately show ?thesis
    by (simp add: align_def cohesion_def separation_def)
qed

theorem no_neighbour_zero_force_witness:
  "length two_far = 2 \<and>
   \<not> qualifies PERCEPTION two_far 1 0 \<and> \<not> qualifies PERCEPTION two_far 1 1 \<and>
   \<not> qualifies SEPARATION two_far 1 0 \<and> \<not> qualifies SEPARATION two_far 1 1 \<and>
   align two_far 1 = Inr (Vector2 0 0) \<and> cohesion two_far 1 = Inr (Vector2 0 0) \<and>
   separation two_far 1 = Inr (Vector2 0 0)"
proof -
  have far: "\<not> qualifies r two_far 1 j" if "j < length two_far" "r \<le> 100" for j r
  proof -
    from that(1) have "j = 0 \<or> j = 1" by (auto simp: two_far_def)
    with that(2) show ?thesis
      by (auto simp: qualifies_def two_far_def vec_eval)
  qed
  have p: "\<forall>j<length two_far. \<not> qualifies PERCEPTION two_far 1 j"
    by (intro allI impI far) (simp_all add: PERCEPTION_def)
  have s: "\<forall>j<length two_far. \<not> qualifies SEPARATION two_far 1 j"
    by (intro allI impI far) (simp_all add: SEPARATION_def)
  have "length two_far = 2" by (simp add: two_far_def)
  with no_neighbour_zero_force [OF p s] p s show ?thesis by simp
qed

theorem update_clamps_speed_witness:
  "update lone_boid 1 =
     Inr \<lparr>position = Vector2 239 805, velocity = Vector2 240 0,
          acceleration = Vector2 0 0, life_history = replicate 512 0\<rparr> \<and>
   length_vec (vadd (velocity lone_boid) (vmul (acceleration lone_boid) 1)) > MAX_SPEED \<and>
   length_vec (Vector2 240 0) = MAX_SPEED"
  using update_clamps_speed [of lone_boid 1]
  by (simp add: update_def lone_boid_def vec_eval consts_defs)

theorem edges_wraps_witness:
  "vx (position lone_boid) < 0 \<and> vy (position lone_boid) > HEIGHT \<and>
   position (edges lone_boid) = Vector2 WIDTH 0 \<and>
   velocity (edges lone_boid) = Vector2 300 0 \<and>
   vx (position (lone_boid\<lparr>position := Vector2 (WIDTH + 1) 5\<rparr>)) > WIDTH \<and>
   position (edges (lone_boid\<lparr>position := Vector2 (WIDTH + 1) 5\<rparr>)) = Vector2 0 5"
proof -
  have a: "vx (position lone_boid) < 0" "vy (position lone_boid) > HEIGHT"
    by (simp_all add: lone_boid_def HEIGHT_def)
  have b: "vx (position (lone_boid\<lparr>position := Vector2 (WIDTH + 1) 5\<rparr>)) > WIDTH"
    "0 \<le> vy (position (lone_boid\<lparr>position := Vector2 (WIDTH + 1) 5\<rparr>)) \<and>
     vy (position (lone_boid\<lparr>position := Vector2 (WIDTH + 1) 5\<rparr>)) \<le> HEIGHT"
    by (simp_all add: HEIGHT_def)
  have "velocity lone_boid = Vector2 300 0" by (simp add: lone_boid_def)
  with a b edges_wraps [of lone_boid]
    edges_wraps [of "lone_boid\<lparr>position := Vector2 (WIDTH + 1) 5\<rparr>"]
  show ?thesis
    by (simp add: Vector2.expand)
qed

lemma new_boids_length:
  "new_boids n rnd = Inr fresh \<Longrightarrow> length fresh = n"
  by (induction n arbitrary: rnd fresh) (auto split: sum.splits)

lemma Boid_init_defined:
  "Vector2 (dir_x r) (dir_y r) \<noteq> Vector2 0 0 \<Longrightarrow> \<exists>b. Boid_init r = Inr b"
proof -
  assume "Vector2 (dir_x r) (dir_y r) \<noteq> Vector2 0 0"
  then have "length_vec (Vector2 (dir_x r) (dir_y r)) \<noteq> 0"
    by (auto simp: length_vec_zero_iff)
  then obtain n where "normalize_vec (Vector2 (dir_x r) (dir_y r)) = Inr n"
    using normalize_vec_defined by blast
  then show ?thesis by (simp add: Boid_init_def)
qed

lemma new_boids_defined:
  "\<forall>k<n. Vector2 (dir_x (rnd k)) (dir_y (rnd k)) \<noteq> Vector2 0 0 \<Longrightarrow> \<exists>fresh. new_boids n rnd = Inr fresh"
proof (induction n arbitrary: rnd)
  case 0
  then show ?case by simp
next
  case (Suc n)
  from Suc.prems obtain b where b: "Boid_init (rnd 0) = Inr b"
    using Boid_init_defined [of "rnd 0"] by auto
  from Suc.prems have "\<forall>k<n. Vector2 (dir_x (rnd (Suc k))) (dir_y (rnd (Suc k))) \<noteq> Vector2 0 0"
    by auto
  then obtain rest where "new_boids n (\<lambda>k. rnd (Suc k)) = Inr rest"
    using Suc.IH [of "\<lambda>k. rnd (Suc k)"] by auto
  with b show ?case by simp
qed

lemma pop_loop_length:
  "k \<le> length boids \<Longrightarrow> \<exists>boids'. pop_loop k boids = Inr boids' \<and> boids' = take (length boids - k) boids"
proof (induction k arbitrary: boids)
  case 0
  then show ?case by simp
next
  case (Suc k)
  then have ne: "boids \<noteq> []" by auto
  from Suc.prems have "k \<le> length (butlast boids)" by simp
  from Suc.IH [OF this] ne show ?case
    by (simp add: pop_def butlast_conv_take)
qed

text \<open>
  Claim C8. \<open>grow n\<close> makes the population exactly \<open>n\<close> larger: it does so whenever
  it returns, and it returns whenever no constructor draws the zero direction (on which
  \<^verbatim>\<open>Boid.__init__\<close> raises). \<open>shrink n\<close> always returns and removes the last
  \<open>min n p\<close> boids of a population of \<open>p\<close>, so the count never drops below zero.
\<close>

theorem grow_shrink_population:
  "((\<forall>k<n. Vector2 (dir_x (rnd k)) (dir_y (rnd k)) \<noteq> Vector2 0 0) \<longrightarrow>
      (\<exists>boids'. grow n rnd boids = Inr boids' \<and> length boids' = length boids + n)) \<and>
   (\<forall>boids'. grow n rnd boids = Inr boids' \<longrightarrow> length boids' = length boids + n) \<and>
   (\<exists>boids'. shrink n boids = Inr boids' \<and>
      boids' = take (length boids - min n (length boids)) boids \<and>
      int (length boids') = int (length boids) - int (min n (length boids)) \<and>
      0 \<le> int (length boids) - int (min n (length boids)))"
proof (intro conjI impI allI)
  assume "\<forall>k<n. Vector2 (dir_x (rnd k)) (dir_y (rnd k)) \<noteq> Vector2 0 0"
  then obtain fresh where "new_boids n rnd = Inr fresh"
    using new_boids_defined by blast
  then show "\<exists>boids'. grow n rnd boids = Inr boids' \<and> length boids' = length boids + n"
    by (simp add: grow_def new_boids_length)
next
  fix boids' assume "grow n rnd boids = Inr boids'"
  then show "length boids' = length boids + n"
    by (auto simp: grow_def new_boids_length split: sum.splits)
next
  have "min n (length boids) \<le> length boids" by simp
  from pop_loop_length [OF this]
  show "\<exists>boids'. shrink n boids = Inr boids' \<and>
      boids' = take (length boids - min n (length boids)) boids \<and>
      int (length boids') = int (length boids) - int (min n (length boids)) \<and>
      0 \<le> int (length boids) - int (min n (length boids))"
    by (auto simp: shrink_def)
qed

theorem grow_shrink_population_witness:
  "Vector2 (dir_x (east_draws 0)) (dir_y (east_draws 0)) \<noteq> Vector2 0 0 \<and>
   Vector2 (dir_x (east_draws 1)) (dir_y (east_draws 1)) \<noteq> Vector2 0 0 \<and>
   (\<exists>boids'. grow 2 east_draws two_far = Inr boids' \<and> length boids' = 4) \<and>
   shrink 1000 (replicate 5 lone_boid) = Inr [] \<and>
   (\<exists>boids'. key_down two_far = Inr boids' \<and> length boids' = 0)"
proof -
  have d: "\<forall>k<2. Vector2 (dir_x (east_draws k)) (dir_y (east_draws k)) \<noteq> Vector2 0 0"
    by (simp add: east_draws_def)
  have l: "length two_far = 2" by (simp add: two_far_def)
  from grow_shrink_population [of 2 east_draws two_far] d l
  have g: "\<exists>boids'. grow 2 east_draws two_far = Inr boids' \<and> length boids' = 4"
    by simp
  from grow_shrink_population [of 1000 east_draws "replicate 5 lone_boid"]
  have s: "shrink 1000 (replicate 5 lone_boid) = Inr []"
    by simp
  from grow_shrink_population [of 10 east_draws two_far] l
  have k: "\<exists>boids'. key_down two_far = Inr boids' \<and> length boids' = 0"
    by (simp add: key_down_def)
  from d g s k show ?thesis by (simp add: east_draws_def)
qed

lemma align_three_in_line: "align three_in_line 0 = Inr (Vector2 200 0)"
  by (simp add: align_def three_in_line_def vec_eval consts_defs)

lemma cohesion_loop_three_in_line:
  "cohesion_loop (three_in_line ! 0) 0 0 three_in_line (Vector2 0 0, 0) = (Vector2 20 20, 2)"
  by (simp add: three_in_line_def vec_eval consts_defs)

lemma cohesion_three_in_line: "cohesion three_in_line 0 = Inl ValueError"
  by (simp add: cohesion_def cohesion_loop_three_in_line)
     (simp add: three_in_line_def vec_eval consts_defs)

lemma upt_3: "[0..<3] = [0, 1, 2]"
  by (simp add: upt_rec)

lemma upt_2: "[0..<2] = [0, 1]"
  by (simp add: upt_rec)

text \<open>
  Claim C2 says that no behaviour ever normalizes a vector of length zero. The distance
  tests guard the normalization of a single difference vector, not that of the averaged
  steering vector. With the first boid midway between two neighbours, alignment returns,
  the cohesion loop sums the neighbours' positions to \<open>(20, 20)\<close>, the average minus the
  boid's own position is the zero vector, and \<^verbatim>\<open>normalize\<close> raises; the exception ends
  the whole frame update.
\<close>

theorem cohesion_normalizes_zero_vector:
  "align three_in_line 0 = Inr (Vector2 200 0) \<and>
   cohesion_loop (three_in_line ! 0) 0 0 three_in_line (Vector2 0 0, 0) = (Vector2 20 20, 2) \<and>
   vdiv (Vector2 20 20) 2 = Inr (Vector2 10 10) \<and>
   vsub (Vector2 10 10) (position (three_in_line ! 0)) = Vector2 0 0 \<and>
   normalize_vec (Vector2 0 0) = Inl ValueError \<and>
   cohesion three_in_line 0 = Inl ValueError \<and>
   update_all_boids three_in_line dt mouse_pos is_attracted = Inl ValueError"
proof -
  have "apply_behavior three_in_line 0 mouse_pos is_attracted = Inl ValueError"
    by (simp add: apply_behavior_def align_three_in_line cohesion_three_in_line)
  moreover have "length three_in_line = 3" by (simp add: three_in_line_def)
  ultimately have "update_all_boids three_in_line dt mouse_pos is_attracted = Inl ValueError"
    by (simp add: update_all_boids_def upt_3)
  moreover have "vsub (Vector2 10 10) (position (three_in_line ! 0)) = Vector2 0 0"
    by (simp add: three_in_line_def vsub_def)
  moreover have "normalize_vec (Vector2 0 0) = Inl ValueError"
    by (simp add: normalize_vec_def length_vec_zero)
  moreover have "vdiv (Vector2 20 20) 2 = Inr (Vector2 10 10)"
    by (simp add: vdiv_def)
  ultimately show ?thesis
    by (simp add: align_three_in_line cohesion_loop_three_in_line cohesion_three_in_line)
qed

lemma two_far_first:
  "apply_behavior two_far 0 (Vector2 1000 100) False = Inr two_far"
  by (simp add: apply_behavior_def align_def cohesion_def separation_def react_to_mouse_def
        two_far_def vec_eval consts_defs)

lemma update_two_far_first:
  "update (two_far ! 0) 1 = Inr (two_far_sequential ! 0)"
  by (simp add: update_def two_far_def two_far_sequential_def vec_eval consts_defs)

lemma edges_two_far_first:
  "edges (two_far_sequential ! 0) = two_far_sequential ! 0"
  by (simp add: edges_def two_far_sequential_def consts_defs)

lemma align_mid: "align two_far_mid (Suc 0) = Inr (Vector2 200 0)"
  by (simp add: align_def two_far_mid_def two_far_def two_far_sequential_def vec_eval consts_defs)

lemma cohesion_mid: "cohesion two_far_mid (Suc 0) = Inr (Vector2 (-200) 0)"
  by (simp add: cohesion_def two_far_mid_def two_far_def two_far_sequential_def vec_eval consts_defs)

lemma separation_mid: "separation two_far_mid (Suc 0) = Inr (Vector2 200 0)"
  by (simp add: separation_def two_far_mid_def two_far_def two_far_sequential_def vec_eval consts_defs)

lemma mouse_mid: "react_to_mouse (two_far_mid ! Suc 0) (Vector2 1000 100) False = Inr (Vector2 0 0)"
  by (simp add: react_to_mouse_def two_far_mid_def two_far_def two_far_sequential_def vec_eval consts_defs)

lemma two_far_second:
  "apply_behavior two_far_mid (Suc 0) (Vector2 1000 100) False =
     Inr (two_far_mid[Suc 0 := (two_far_mid ! Suc 0)\<lparr>acceleration := Vector2 200 0\<rparr>])"
proof -
  have "acceleration (two_far_mid ! Suc 0) = Vector2 0 0"
    by (simp add: two_far_mid_def two_far_def)
  then show ?thesis
    by (simp add: apply_behavior_def align_mid cohesion_mid separation_mid mouse_mid vadd_def)
qed

lemma update_two_far_second:
  "update ((two_far_mid ! Suc 0)\<lparr>acceleration := Vector2 200 0\<rparr>) 1 = Inr (two_far_sequential ! Suc 0)"
  by (simp add: update_def two_far_mid_def two_far_def two_far_sequential_def vec_eval consts_defs)

lemma edges_two_far_second:
  "edges (two_far_sequential ! Suc 0) = two_far_sequential ! Suc 0"
  by (simp add: edges_def two_far_sequential_def consts_defs)

lemma update_all_two_far:
  "update_all_boids two_far 1 (Vector2 1000 100) False = Inr two_far_sequential"
proof -
  have l: "length two_far = 2" by (simp add: two_far_def)
  have fin: "two_far_mid[Suc 0 := two_far_sequential ! Suc 0] = two_far_sequential"
    by (simp add: two_far_mid_def two_far_def two_far_sequential_def)
  have mid: "two_far_mid ! Suc 0 = two_far ! Suc 0" "length two_far_mid = 2"
    by (simp_all add: two_far_mid_def two_far_def)
  show ?thesis
    unfolding update_all_boids_def l upt_2
    by (simp add: two_far_first update_two_far_first edges_two_far_first
          flip: two_far_mid_def)
       (simp add: two_far_second mid update_two_far_second [unfolded mid]
          edges_two_far_second fin)
qed

lemma force_sum_two_far_0: "force_sum two_far 0 (Vector2 1000 100) False = Inr (Vector2 0 0)"
  by (simp add: force_sum_def align_def cohesion_def separation_def react_to_mouse_def
        two_far_def vec_eval consts_defs)

lemma force_sum_two_far_1:
  "force_sum two_far (Suc 0) (Vector2 1000 100) False = Inr (Vector2 0 0)"
  by (simp add: force_sum_def align_def cohesion_def separation_def react_to_mouse_def
        two_far_def vec_eval consts_defs)

lemma force_sum_two_far_mid:
  "force_sum two_far_mid (Suc 0) (Vector2 1000 100) False = Inr (Vector2 200 0)"
  by (simp add: force_sum_def align_mid cohesion_mid separation_mid mouse_mid vadd_def)

lemma step_spec_two_far:
  "step_spec two_far 1 (Vector2 1000 100) False = Inr two_far_two_phase"
proof -
  have l: "length two_far = 2" by (simp add: two_far_def)
  have p1: "phase1_spec two_far [0, Suc 0] (Vector2 1000 100) False = Inr two_far"
    by (simp add: force_sum_two_far_0 force_sum_two_far_1) (simp add: two_far_def)
  have p2: "phase2_spec two_far 1 = Inr two_far_two_phase"
    by (simp add: two_far_def two_far_two_phase_def update_def edges_def vec_eval consts_defs)
  show ?thesis
    unfolding step_spec_def l upt_2 using p1 p2
    by (simp del: phase1_spec.simps phase2_spec.simps)
qed

text \<open>
  Claim C1 as stated: every boid's forces are evaluated on the population as it was before
  the step. In \<open>two_far\<close> the boids are 100 apart, so on that population the forces of
  the second boid add up to zero. The program has moved the first boid to within 40 of
  the second one before the second one is steered; its forces then add up to
  \<open>(200, 0)\<close>, and the result differs from that of the two-phase step.
\<close>

theorem snapshot_step_counterexample:
  "update_all_boids two_far 1 (Vector2 1000 100) False = Inr two_far_sequential \<and>
   step_spec two_far 1 (Vector2 1000 100) False = Inr two_far_two_phase \<and>
   two_far_sequential \<noteq> two_far_two_phase \<and>
   force_sum two_far 1 (Vector2 1000 100) False = Inr (Vector2 0 0) \<and>
   force_sum (two_far[0 := two_far_sequential ! 0]) 1 (Vector2 1000 100) False =
     Inr (Vector2 200 0)"
  using force_sum_two_far_mid
  by (simp add: update_all_two_far step_spec_two_far force_sum_two_far_1 two_far_mid_def)
     (simp add: two_far_sequential_def two_far_two_phase_def)

lemma apply_behavior_frame:
  "apply_behavior boids i mouse_pos is_attracted = Inr boids' \<Longrightarrow>
     \<exists>f. boids' = boids[i := (boids ! i)\<lparr>acceleration := f\<rparr>]"
  by (auto simp: apply_behavior_def split: sum.splits)

lemma update_all_boids_loop_frame:
  "update_all_boids_loop idx cur dt mouse_pos is_attracted = Inr final \<Longrightarrow>
     length final = length cur \<and> (\<forall>j. j \<notin> set idx \<longrightarrow> final ! j = cur ! j)"
proof (induction idx arbitrary: cur)
  case Nil
  then show ?case by simp
next
  case (Cons i idx)
  from Cons.prems obtain P1 b where
    ab: "apply_behavior cur i mouse_pos is_attracted = Inr P1" and
    rest: "update_all_boids_loop idx (P1[i := edges b]) dt mouse_pos is_attracted = Inr final"
    by (auto split: sum.splits)
  from apply_behavior_frame [OF ab] obtain f where
    P1: "P1 = cur[i := (cur ! i)\<lparr>acceleration := f\<rparr>]" by blast
  from Cons.IH [OF rest] P1 show ?case by auto
qed

lemma update_all_boids_loop_steps:
  assumes "update_all_boids_loop [k0..<n] cur dt mouse_pos is_attracted = Inr final"
    and "n = length cur" and "k0 \<le> k" and "k < n"
  shows "\<exists>P1 b. apply_behavior (take k final @ drop k cur) k mouse_pos is_attracted = Inr P1 \<and>
           update (P1 ! k) dt = Inr b \<and> final ! k = edges b"
  using assms
proof (induction "n - k0" arbitrary: k0 cur)
  case 0
  then show ?case by simp
next
  case (Suc d)
  from Suc.prems have lt: "k0 < n" by simp
  then have upt: "[k0..<n] = k0 # [Suc k0..<n]" by (rule upt_conv_Cons)
  from Suc.prems(1) obtain P1 b where
    ab: "apply_behavior cur k0 mouse_pos is_attracted = Inr P1" and
    up: "update (P1 ! k0) dt = Inr b" and
    rest: "update_all_boids_loop [Suc k0..<n] (P1[k0 := edges b]) dt mouse_pos is_attracted
             = Inr final"
    unfolding upt by (auto split: sum.splits)
  from apply_behavior_frame [OF ab] obtain f where
    P1: "P1 = cur[k0 := (cur ! k0)\<lparr>acceleration := f\<rparr>]" by blast
  let ?cur1 = "P1[k0 := edges b]"
  have len1: "length ?cur1 = n" using P1 Suc.prems(2) by simp
  from update_all_boids_loop_frame [OF rest]
  have lenf: "length final = n" and
    same: "\<And>j. j \<le> k0 \<Longrightarrow> final ! j = ?cur1 ! j"
    using len1 by auto
  show ?case
  proof (cases "k = k0")
    case True
    have "take k0 final = take k0 cur"
    proof (rule nth_equalityI)
      show "length (take k0 final) = length (take k0 cur)"
        using lenf Suc.prems(2) by simp
    next
      fix j assume "j < length (take k0 final)"
      then have j: "j < k0" by simp
      then have "final ! j = ?cur1 ! j" using same by simp
      also have "\<dots> = cur ! j" using j P1 by simp
      finally show "take k0 final ! j = take k0 cur ! j" using j by simp
    qed
    then have pop: "take k final @ drop k cur = cur" using True by simp
    have "final ! k0 = edges b"
      using same [of k0] lt len1 by simp
    with ab up pop True show ?thesis by auto
  next
    case False
    with Suc.prems have gt: "Suc k0 \<le> k" by simp
    have d: "d = n - Suc k0" using Suc.hyps(2) by simp
    from Suc.hyps(1) [OF d rest len1 [symmetric] gt Suc.prems(4)]
    obtain P1' b' where
      "apply_behavior (take k final @ drop k ?cur1) k mouse_pos is_attracted = Inr P1'"
      "update (P1' ! k) dt = Inr b'" "final ! k = edges b'"
      by blast
    moreover have "drop k ?cur1 = drop k cur"
      using gt P1 by (simp add: drop_update_cancel)
    ultimately show ?thesis by auto
  qed
qed

text \<open>
  Claim C1, as amended. One pass treats the boids in list order, and the forces of boid
  \<open>k\<close> are evaluated on the population as it stands at its turn: the boids before it
  are in their state after the step, the boid itself and those after it in their state
  before the step. Boid \<open>k\<close> is then integrated and wrapped at once.
\<close>

theorem update_all_boids_sequential:
  assumes "update_all_boids boids dt mouse_pos is_attracted = Inr final"
    and "k < length boids"
  shows "length final = length boids \<and>
         (\<exists>P1 b. apply_behavior (take k final @ drop k boids) k mouse_pos is_attracted = Inr P1 \<and>
            update (P1 ! k) dt = Inr b \<and> final ! k = edges b)"
  using assms update_all_boids_loop_frame [of "[0..<length boids]" boids dt mouse_pos is_attracted final]
    update_all_boids_loop_steps [of 0 "length boids" boids dt mouse_pos is_attracted final k]
  by (simp add: update_all_boids_def)

theorem update_all_boids_sequential_witness:
  "update_all_boids two_far 1 (Vector2 1000 100) False = Inr two_far_sequential \<and>
   (1::nat) < length two_far \<and>
   take 1 two_far_sequential @ drop 1 two_far = two_far[0 := two_far_sequential ! 0] \<and>
   (\<exists>P1 b. apply_behavior (two_far[0 := two_far_sequential ! 0]) 1 (Vector2 1000 100) False
              = Inr P1 \<and>
          update (P1 ! 1) 1 = Inr b \<and> two_far_sequential ! 1 = edges b)"
proof -
  have l: "(1::nat) < length two_far" by (simp add: two_far_def)
  have t: "take 1 two_far_sequential @ drop 1 two_far = two_far[0 := two_far_sequential ! 0]"
    by (simp add: two_far_def two_far_sequential_def)
  from update_all_boids_sequential [OF update_all_two_far l] l t show ?thesis
    by (simp add: update_all_two_far)
qed

lemma forget_history_fields [simp]:
  "position (forget_history b) = position b"
  "velocity (forget_history b) = velocity b"
  "acceleration (forget_history b) = acceleration b"
  by (simp_all add: forget_history_def)

lemma forget_history_snapshot:
  "forget_history b =
     \<lparr>position = fst (snapshot b), velocity = fst (snd (snapshot b)),
      acceleration = snd (snd (snapshot b)), life_history = []\<rparr>"
  by (simp add: forget_history_def snapshot_def)

lemma snapshot_forget_history [simp]: "snapshot (forget_history b) = snapshot b"
  by (simp add: snapshot_def)

lemma same_snapshot_forget:
  "snapshot a = snapshot b \<Longrightarrow> forget_history a = forget_history b"
  by (simp only: forget_history_snapshot)

lemma same_snapshots_forget:
  "map snapshot bs1 = map snapshot bs2 \<Longrightarrow> map forget_history bs1 = map forget_history bs2"
proof (induction bs1 arbitrary: bs2)
  case Nil
  then show ?case by simp
next
  case (Cons b bs1)
  then obtain c bs2' where bs2: "bs2 = c # bs2'" by (cases bs2) auto
  with Cons.prems have "snapshot b = snapshot c" "map snapshot bs1 = map snapshot bs2'"
    by simp_all
  with Cons.IH [of bs2'] same_snapshot_forget [of b c] bs2 show ?case by simp
qed

lemma align_loop_forget:
  "align_loop (forget_history self) i j (map forget_history bs) acc = align_loop self i j bs acc"
  by (induction bs arbitrary: j acc) (auto simp: Let_def split: prod.splits)

lemma cohesion_loop_forget:
  "cohesion_loop (forget_history self) i j (map forget_history bs) acc =
     cohesion_loop self i j bs acc"
  by (induction bs arbitrary: j acc) (auto simp: Let_def split: prod.splits)

lemma separation_loop_forget:
  "separation_loop (forget_history self) i j (map forget_history bs) acc =
     separation_loop self i j bs acc"
proof (induction bs arbitrary: j acc)
  case Nil
  then show ?case by (cases acc) simp
next
  case (Cons b bs)
  then show ?case by (cases acc) (simp add: Let_def split: sum.splits)
qed

lemma align_forget: "i < length bs \<Longrightarrow> align (map forget_history bs) i = align bs i"
  by (simp add: align_def align_loop_forget Let_def cong: if_cong sum.case_cong prod.case_cong)

lemma cohesion_forget: "i < length bs \<Longrightarrow> cohesion (map forget_history bs) i = cohesion bs i"
  by (simp add: cohesion_def cohesion_loop_forget Let_def cong: if_cong sum.case_cong prod.case_cong)

lemma separation_forget:
  "i < length bs \<Longrightarrow> separation (map forget_history bs) i = separation bs i"
  by (simp add: separation_def separation_loop_forget Let_def cong: if_cong sum.case_cong prod.case_cong)

lemma react_to_mouse_forget:
  "react_to_mouse (forget_history b) mouse_pos is_attracted = react_to_mouse b mouse_pos is_attracted"
  by (simp add: react_to_mouse_def cong: if_cong sum.case_cong)

lemma apply_behavior_forget:
  "i < length bs \<Longrightarrow>
     apply_behavior (map forget_history bs) i mouse_pos is_attracted =
     map_sum id (map forget_history) (apply_behavior bs i mouse_pos is_attracted)"
proof -
  assume i: "i < length bs"
  have upd: "(map forget_history bs)[i := (forget_history (bs ! i))\<lparr>acceleration := f\<rparr>] =
      map forget_history (bs[i := (bs ! i)\<lparr>acceleration := f\<rparr>])" for f
    by (cases "bs ! i") (simp add: map_update forget_history_def)
  show ?thesis
    unfolding apply_behavior_def align_forget [OF i] cohesion_forget [OF i]
      separation_forget [OF i]
    using i
    by (cases "align bs i"; cases "cohesion bs i"; cases "separation bs i";
        cases "react_to_mouse (bs ! i) mouse_pos is_attracted")
       (simp_all add: react_to_mouse_forget upd)
qed

lemma update_forget:
  "update (forget_history b) dt = map_sum id forget_history (update b dt)"
  by (simp add: update_def Let_def forget_history_def split: sum.splits)

lemma edges_forget: "edges (forget_history b) = forget_history (edges b)"
  by (simp add: edges_def Let_def forget_history_def)

lemma update_all_boids_loop_forget:
  "\<forall>i\<in>set idx. i < length cur \<Longrightarrow>
     update_all_boids_loop idx (map forget_history cur) dt mouse_pos is_attracted =
     map_sum id (map forget_history) (update_all_boids_loop idx cur dt mouse_pos is_attracted)"
proof (induction idx arbitrary: cur)
  case Nil
  then show ?case by simp
next
  case (Cons i idx)
  then have i: "i < length cur" by simp
  show ?case
  proof (cases "apply_behavior cur i mouse_pos is_attracted")
    case (Inl e)
    then show ?thesis by (simp add: apply_behavior_forget [OF i])
  next
    case (Inr P1)
    from apply_behavior_frame [OF Inr] have len: "length P1 = length cur" by auto
    show ?thesis
    proof (cases "update (P1 ! i) dt")
      case (Inl e)
      with Inr i len show ?thesis
        by (simp add: apply_behavior_forget [OF i] update_forget)
    next
      case b: (Inr b)
      from Cons.prems len have "\<forall>k\<in>set idx. k < length (P1[i := edges b])" by simp
      from Cons.IH [OF this] Inr b i len show ?thesis
        by (simp add: apply_behavior_forget [OF i] update_forget edges_forget map_update)
    qed
  qed
qed

lemma update_all_boids_forget:
  "update_all_boids (map forget_history bs) dt mouse_pos is_attracted =
   map_sum id (map forget_history) (update_all_boids bs dt mouse_pos is_attracted)"
  using update_all_boids_loop_forget [of "[0..<length bs]" bs]
  by (simp add: update_all_boids_def)

lemma map_snapshot_forget:
  "map_sum id (map snapshot) (map_sum id (map forget_history) r) = map_sum id (map snapshot) r"
  by (cases r) simp_all

text \<open>
  Claim C9. The frame update is deterministic: two runs that start from populations with
  the same positions, velocities and accelerations in the same order, with the same
  \<open>dt\<close>, pointer position and mode, end in the same way, either with the same exception
  or with populations that again have the same positions, velocities and accelerations.
\<close>

theorem update_all_boids_deterministic:
  assumes "map snapshot boids1 = map snapshot boids2"
    and "dt1 = dt2" and "mouse_pos1 = mouse_pos2" and "is_attracted1 = is_attracted2"
  shows "map_sum id (map snapshot) (update_all_boids boids1 dt1 mouse_pos1 is_attracted1) =
         map_sum id (map snapshot) (update_all_boids boids2 dt2 mouse_pos2 is_attracted2)"
proof -
  have "map_sum id (map snapshot) (update_all_boids bs dt2 mouse_pos2 is_attracted2) =
        map_sum id (map snapshot)
          (update_all_boids (map forget_history bs) dt2 mouse_pos2 is_attracted2)" for bs
    by (simp only: update_all_boids_forget map_snapshot_forget)
  from this [of boids1] this [of boids2] same_snapshots_forget [OF assms(1)] assms(2-4)
  show ?thesis by (simp only:)
qed

theorem update_all_boids_deterministic_witness:
  "map snapshot two_far = map snapshot (map forget_history two_far) \<and>
   two_far \<noteq> map forget_history two_far \<and>
   map_sum id (map snapshot)
     (update_all_boids (map forget_history two_far) 1 (Vector2 1000 100) False) =
   Inr (map snapshot two_far_sequential)"
proof -
  have s: "map snapshot two_far = map snapshot (map forget_history two_far)"
    by simp
  have "two_far \<noteq> map forget_history two_far"
    by (simp add: two_far_def forget_history_def)
  with s update_all_boids_deterministic [OF s refl refl refl, of 1 "Vector2 1000 100" False]
  show ?thesis
    by (simp add: update_all_two_far)
qed

end
